theory Spec2Isabelle
  imports Main
begin

section \<open>The build script of SageAttention (setup.py)\<close>

text \<open>
  The script runs top to bottom at build time: it fixes the compiler flags, looks for
  the CUDA toolkit, collects the target compute capabilities (from the environment or
  from the GPUs of the machine), reads the version of nvcc, validates it against the
  targets, and appends one extension module per kernel family to \<open>ext_modules\<close>, which
  it hands to \<open>setup()\<close>. Everything the script reads from outside is a field of the
  record \<open>env\<close>; every \<open>raise\<close> is an \<open>Inl\<close> of the result.
\<close>

subsection \<open>Strings\<close>

text \<open>\<open>s.startswith(p)\<close> and \<open>s.endswith(p)\<close> for one string \<open>p\<close>.\<close>

fun startswith :: "string \<Rightarrow> string \<Rightarrow> bool" where
  "startswith s [] = True"
| "startswith [] (p # ps) = False"
| "startswith (c # cs) (p # ps) = (c = p \<and> startswith cs ps)"

definition endswith :: "string \<Rightarrow> string \<Rightarrow> bool" where
  "endswith s p = startswith (rev s) (rev p)"

text \<open>
  A Python string is a sequence of code points. A \<open>char\<close> stands for the code point
  of its number, so the strings of this theory are the Python strings whose code
  points are below 256.

  \<open>s.split()\<close>: the maximal runs of characters that are not whitespace, in order; no
  empty token. The whitespace of a Python string, among the code points below 256, is
  tab, newline, vertical tab, form feed, carriage return (9 to 13), the four separators
  28 to 31, the space (32), the next-line control U+0085 (133) and the no-break space
  U+00A0 (160).
\<close>

definition is_space :: "char \<Rightarrow> bool" where
  "is_space c =
     (let n = (of_char c :: nat)
      in (9 \<le> n \<and> n \<le> 13) \<or> (28 \<le> n \<and> n \<le> 32) \<or> n = 133 \<or> n = 160)"

fun split_ws :: "string \<Rightarrow> string \<Rightarrow> string list" where
  "split_ws cur [] = (if cur = [] then [] else [cur])"
| "split_ws cur (c # cs) =
     (if is_space c then (if cur = [] then split_ws [] cs else cur # split_ws [] cs)
      else split_ws (cur @ [c]) cs)"

definition py_split :: "string \<Rightarrow> string list" where
  "py_split s = split_ws [] s"

text \<open>
  \<open>s.split(sep)\<close> for a separator of one character: the pieces between the
  separators, empty pieces kept; never the empty list.
\<close>

fun split_sep :: "char \<Rightarrow> string \<Rightarrow> string \<Rightarrow> string list" where
  "split_sep sep cur [] = [cur]"
| "split_sep sep cur (c # cs) =
     (if c = sep then cur # split_sep sep [] cs else split_sep sep (cur @ [c]) cs)"

definition py_split_on :: "char \<Rightarrow> string \<Rightarrow> string list" where
  "py_split_on sep s = split_sep sep [] s"

text \<open>\<open>s.split(sep)[0]\<close>: index 0 always exists.\<close>

definition first_piece :: "char \<Rightarrow> string \<Rightarrow> string" where
  "first_piece sep s = (case py_split_on sep s of [] \<Rightarrow> [] | x # _ \<Rightarrow> x)"

text \<open>\<open>s.replace(".", "")\<close>.\<close>

definition remove_dots :: "string \<Rightarrow> string" where
  "remove_dots s = filter (\<lambda>c. c \<noteq> CHR ''.'') s"

text \<open>The decimal digits of a natural number, as an f-string prints an int.\<close>

definition digit :: "nat \<Rightarrow> char" where
  "digit d = ''0123456789'' ! d"

fun show_nat :: "nat \<Rightarrow> string" where
  "show_nat n = (if n < 10 then [digit n] else show_nat (n div 10) @ [digit (n mod 10)])"

declare show_nat.simps [simp del]

text \<open>\<open>xs.index(x)\<close>: the first position of \<open>x\<close>; \<open>None\<close> where Python raises ValueError.\<close>

fun index_of :: "'a list \<Rightarrow> 'a \<Rightarrow> nat option" where
  "index_of [] x = None"
| "index_of (y # ys) x = (if y = x then Some 0 else map_option Suc (index_of ys x))"

subsection \<open>Errors\<close>

datatype error =
    RuntimeError string
  | ValueError
  | IndexError
  | InvalidVersion
  | SubprocessError

subsection \<open>What the script reads from outside\<close>

record 'v env =
  os_name :: string
  cpu_count :: "nat option"
  glibcxx_use_cxx11_abi :: bool
  CUDA_HOME :: "string option"
  arch_list :: "string option"
  devices :: "(nat \<times> nat) list"
  check_output :: "string list \<Rightarrow> error + string"
  parse :: "string \<Rightarrow> error + 'v"
  Version :: "string \<Rightarrow> 'v"
  version_lt :: "'v \<Rightarrow> 'v \<Rightarrow> bool"

text \<open>
  \<open>os_name\<close> is \<open>os.name\<close>, \<open>cpu_count\<close> is \<open>os.cpu_count()\<close>, \<open>arch_list\<close> is
  \<open>os.getenv("SAGEATTENTION_CUDA_ARCH_LIST")\<close>, \<open>devices\<close> lists
  \<open>torch.cuda.get_device_capability(i)\<close> for \<open>i\<close> below \<open>torch.cuda.device_count()\<close>,
  and \<open>check_output\<close> is \<open>subprocess.check_output\<close> as a function of the command line:
  the text the command prints, or the exception of a command that cannot be run.

  The last three fields are the library \<open>packaging.version\<close>, which the script
  imports: \<open>'v\<close> is its type of versions, whatever they are (releases, pre-releases,
  post-releases, epochs, local versions); \<open>parse\<close> reads a version from a string or
  raises; \<open>Version s\<close> is the value of \<open>Version(s)\<close> for the four literals of the script,
  each of which is a version; \<open>version_lt\<close> is \<open><\<close> on versions. The script is modelled
  for every such library.
\<close>

subsection \<open>Compiler flags\<close>

definition ABI :: "'v env \<Rightarrow> nat" where
  "ABI e = (if glibcxx_use_cxx11_abi e then 1 else 0)"

definition CXX_FLAGS :: "'v env \<Rightarrow> string list" where
  "CXX_FLAGS e =
     (if os_name e = ''nt''
      then [''/O2'', ''/openmp'', ''/std:c++17'', ''-DENABLE_BF16'']
      else [''-g'', ''-O3'', ''-fopenmp'', ''-lgomp'', ''-std=c++17'', ''-DENABLE_BF16''])
     @ [''-D_GLIBCXX_USE_CXX11_ABI='' @ show_nat (ABI e)]"

definition NVCC_FLAGS_COMMON :: "'v env \<Rightarrow> string list" where
  "NVCC_FLAGS_COMMON e =
     [''-O3'',
      ''-std=c++17'',
      ''-U__CUDA_NO_HALF_OPERATORS__'',
      ''-U__CUDA_NO_HALF_CONVERSIONS__'',
      ''--use_fast_math'',
      ''--threads='' @ (case cpu_count e of None \<Rightarrow> ''None'' | Some n \<Rightarrow> show_nat n),
      ''-diag-suppress=174'',
      ''-diag-suppress=177'',
      ''-diag-suppress=221'']
     @ [''-D_GLIBCXX_USE_CXX11_ABI='' @ show_nat (ABI e)]"

subsection \<open>The version of nvcc\<close>

definition get_nvcc_cuda_version :: "'v env \<Rightarrow> string \<Rightarrow> error + 'v" where
  "get_nvcc_cuda_version e cuda_dir =
     (case check_output e [cuda_dir @ ''/bin/nvcc'', ''-V''] of
        Inl err \<Rightarrow> Inl err
      | Inr nvcc_output \<Rightarrow>
          (let output = py_split nvcc_output in
           case index_of output ''release'' of
             None \<Rightarrow> Inl ValueError
           | Some i \<Rightarrow>
               (let release_idx = i + 1 in
                if release_idx < length output
                then parse e (first_piece (CHR '','') (output ! release_idx))
                else Inl IndexError)))"

subsection \<open>The target compute capabilities\<close>

text \<open>
  \<open>compute_capabilities\<close> is a Python set of strings. The model is a list without
  repetition: \<open>set_add\<close> is \<open>add\<close>, and the list fixes one order of iteration. Whatever
  is proved of a loop over the set is proved for every list, so for every order.
\<close>

definition set_add :: "string \<Rightarrow> string list \<Rightarrow> string list" where
  "set_add x xs = (if x \<in> set xs then xs else xs @ [x])"

text \<open>
  The branch of the environment variable, taken when \<open>os.getenv\<close> gives a string that
  is not empty: every token is added, unfiltered.
\<close>

fun add_all :: "string list \<Rightarrow> string list \<Rightarrow> string list" where
  "add_all caps [] = caps"
| "add_all caps (x # xs) = add_all (set_add x caps) xs"

text \<open>
  The loop over the GPUs, from device \<open>i\<close> on: the state is the warnings given so far
  and the set.
\<close>

definition capability_string :: "nat \<times> nat \<Rightarrow> string" where
  "capability_string d = show_nat (fst d) @ ''.'' @ show_nat (snd d)"

definition skip_warning :: "nat \<Rightarrow> nat \<times> nat \<Rightarrow> string" where
  "skip_warning i d =
     ''skipping GPU '' @ show_nat i @ '' with compute capability '' @ capability_string d"

fun detect_gpus :: "nat \<Rightarrow> (nat \<times> nat) list \<Rightarrow> string list \<times> string list \<Rightarrow> string list \<times> string list" where
  "detect_gpus i [] st = st"
| "detect_gpus i (d # ds) (warns, caps) =
     (if fst d < 8 then detect_gpus (Suc i) ds (warns @ [skip_warning i d], caps)
      else detect_gpus (Suc i) ds (warns, set_add (capability_string d) caps))"

definition detect :: "'v env \<Rightarrow> string list \<times> string list" where
  "detect e =
     (case arch_list e of
        None \<Rightarrow> detect_gpus 0 (devices e) ([], [])
      | Some s \<Rightarrow>
          if s = [] then detect_gpus 0 (devices e) ([], [])
          else ([], add_all [] (py_split s)))"

definition compute_capabilities :: "'v env \<Rightarrow> string list" where
  "compute_capabilities e = snd (detect e)"

text \<open>
  \<open>has_capability(target)\<close>: \<open>target\<close> is one string (the validation of the nvcc
  version) or a tuple of strings (the choice of the extensions); \<open>startswith\<close> of a
  tuple holds when it holds of one member.
\<close>

datatype target = Str string | Tup "string list"

fun py_startswith :: "string \<Rightarrow> target \<Rightarrow> bool" where
  "py_startswith s (Str p) = startswith s p"
| "py_startswith s (Tup ps) = list_ex (\<lambda>p. startswith s p) ps"

definition has_capability :: "string list \<Rightarrow> target \<Rightarrow> bool" where
  "has_capability caps tgt = list_ex (\<lambda>cc. py_startswith cc tgt) caps"

subsection \<open>Validation of the nvcc version\<close>

definition validate :: "'v env \<Rightarrow> 'v \<Rightarrow> string list \<Rightarrow> error option" where
  "validate e nvcc_cuda_version caps =
     (if version_lt e nvcc_cuda_version (Version e ''12.0'')
      then Some (RuntimeError ''CUDA 12.0 or higher is required to build the package.'')
      else if version_lt e nvcc_cuda_version (Version e ''12.4'') \<and> has_capability caps (Str ''8.9'')
      then Some (RuntimeError ''CUDA 12.4 or higher is required for compute capability 8.9.'')
      else if version_lt e nvcc_cuda_version (Version e ''12.3'') \<and> has_capability caps (Str ''9.0'')
      then Some (RuntimeError ''CUDA 12.3 or higher is required for compute capability 9.0.'')
      else if version_lt e nvcc_cuda_version (Version e ''12.8'') \<and> has_capability caps (Str ''12.0'')
      then Some (RuntimeError ''CUDA 12.8 or higher is required for compute capability 12.0.'')
      else None)"

subsection \<open>The nvcc flags of an extension\<close>

definition arch_num :: "string \<Rightarrow> string" where
  "arch_num capability =
     (let num = remove_dots (first_piece (CHR ''+'') capability)
      in if num \<in> {''90'', ''120''} then num @ ''a'' else num)"

definition gencode :: "string \<Rightarrow> string list" where
  "gencode capability =
     (let num = arch_num capability;
          flags = [''-gencode'', ''arch=compute_'' @ num @ '',code=sm_'' @ num]
      in if endswith capability ''+PTX''
         then flags @ [''-gencode'', ''arch=compute_'' @ num @ '',code=compute_'' @ num]
         else flags)"

fun nvcc_flags_loop :: "string list \<Rightarrow> string list \<Rightarrow> string list \<Rightarrow> string list" where
  "nvcc_flags_loop allowed [] flags = flags"
| "nvcc_flags_loop allowed (capability # rest) flags =
     (if capability \<notin> set allowed then nvcc_flags_loop allowed rest flags
      else nvcc_flags_loop allowed rest (flags @ gencode capability))"

definition get_nvcc_flags :: "string list \<Rightarrow> string list \<Rightarrow> string list \<Rightarrow> string list" where
  "get_nvcc_flags common caps allowed_capabilities =
     nvcc_flags_loop allowed_capabilities caps [] @ common"

subsection \<open>The extension modules\<close>

record extension =
  name :: string
  sources :: "string list"
  libraries :: "string list"
  cxx :: "string list"
  nvcc :: "string list"

definition qattn_sm80 :: "'v env \<Rightarrow> string list \<Rightarrow> extension" where
  "qattn_sm80 e caps =
     \<lparr>name = ''sageattention._qattn_sm80'',
      sources = [''csrc/qattn/pybind_sm80.cpp'',
                 ''csrc/qattn/qk_int_sv_f16_cuda_sm80.cu''],
      libraries = [],
      cxx = CXX_FLAGS e,
      nvcc = get_nvcc_flags (NVCC_FLAGS_COMMON e) caps [''8.0'']\<rparr>"

definition qattn_sm89 :: "'v env \<Rightarrow> string list \<Rightarrow> extension" where
  "qattn_sm89 e caps =
     \<lparr>name = ''sageattention._qattn_sm89'',
      sources = [''csrc/qattn/pybind_sm89.cpp'',
                 ''csrc/qattn/sm89_qk_int8_sv_f8_accum_f32_attn_inst_buf.cu'',
                 ''csrc/qattn/sm89_qk_int8_sv_f8_accum_f16_attn_inst_buf.cu'',
                 ''csrc/qattn/sm89_qk_int8_sv_f8_accum_f32_attn.cu'',
                 ''csrc/qattn/sm89_qk_int8_sv_f8_accum_f32_fuse_v_scale_fuse_v_mean_attn.cu'',
                 ''csrc/qattn/sm89_qk_int8_sv_f8_accum_f32_fuse_v_scale_attn.cu'',
                 ''csrc/qattn/sm89_qk_int8_sv_f8_accum_f32_fuse_v_scale_attn_inst_buf.cu'',
                 ''csrc/qattn/sm89_qk_int8_sv_f8_accum_f16_fuse_v_scale_attn_inst_buf.cu''],
      libraries = [],
      cxx = CXX_FLAGS e,
      nvcc = get_nvcc_flags (NVCC_FLAGS_COMMON e) caps [''8.9'', ''12.0'']\<rparr>"

definition qattn_sm90 :: "'v env \<Rightarrow> string list \<Rightarrow> extension" where
  "qattn_sm90 e caps =
     \<lparr>name = ''sageattention._qattn_sm90'',
      sources = [''csrc/qattn/pybind_sm90.cpp'',
                 ''csrc/qattn/qk_int_sv_f8_cuda_sm90.cu''],
      libraries = [''cuda''],
      cxx = CXX_FLAGS e,
      nvcc = get_nvcc_flags (NVCC_FLAGS_COMMON e) caps [''9.0'']\<rparr>"

definition fused_extension :: "'v env \<Rightarrow> string list \<Rightarrow> extension" where
  "fused_extension e caps =
     \<lparr>name = ''sageattention._fused'',
      sources = [''csrc/fused/pybind.cpp'', ''csrc/fused/fused.cu''],
      libraries = [],
      cxx = CXX_FLAGS e,
      nvcc = get_nvcc_flags (NVCC_FLAGS_COMMON e) caps [''8.0'', ''8.9'', ''9.0'', ''12.0'']\<rparr>"

text \<open>
  The four places where the script touches \<open>ext_modules\<close>, each a function of the list
  so far, and the list handed to \<open>setup()\<close>: the four in sequence from the empty list.
\<close>

definition append_sm80 :: "'v env \<Rightarrow> string list \<Rightarrow> extension list \<Rightarrow> extension list" where
  "append_sm80 e caps exts =
     (if has_capability caps (Tup [''8.0'']) then exts @ [qattn_sm80 e caps] else exts)"

definition append_sm89 :: "'v env \<Rightarrow> string list \<Rightarrow> extension list \<Rightarrow> extension list" where
  "append_sm89 e caps exts =
     (if has_capability caps (Tup [''8.9'', ''12.0'']) then exts @ [qattn_sm89 e caps] else exts)"

definition append_sm90 :: "'v env \<Rightarrow> string list \<Rightarrow> extension list \<Rightarrow> extension list" where
  "append_sm90 e caps exts =
     (if has_capability caps (Tup [''9.0'']) then exts @ [qattn_sm90 e caps] else exts)"

definition append_fused :: "'v env \<Rightarrow> string list \<Rightarrow> extension list \<Rightarrow> extension list" where
  "append_fused e caps exts = exts @ [fused_extension e caps]"

definition ext_modules :: "'v env \<Rightarrow> string list \<Rightarrow> extension list" where
  "ext_modules e caps =
     append_fused e caps (append_sm90 e caps (append_sm89 e caps (append_sm80 e caps [])))"

text \<open>
  The values that the variable \<open>ext_modules\<close> takes in the course of the script, in
  order: the empty list of line 122, and the list after each of the four places.
\<close>

definition ext_modules_states :: "'v env \<Rightarrow> string list \<Rightarrow> extension list list" where
  "ext_modules_states e caps =
     (let s0 = [];
          s1 = append_sm80 e caps s0;
          s2 = append_sm89 e caps s1;
          s3 = append_sm90 e caps s2;
          s4 = append_fused e caps s3
      in [s0, s1, s2, s3, s4])"

subsection \<open>The script as a whole\<close>

text \<open>
  The result is the exception that ends the script, or the \<open>ext_modules\<close> that
  \<open>setup()\<close> receives. The order is the script's: CUDA_HOME, the capabilities, the
  version of nvcc, the test that the set is not empty, the validation, the extensions.
\<close>

definition setup_py :: "'v env \<Rightarrow> error + extension list" where
  "setup_py e =
     (case CUDA_HOME e of
        None \<Rightarrow> Inl (RuntimeError ''Cannot find CUDA_HOME. CUDA must be available to build the package.'')
      | Some cuda_dir \<Rightarrow>
          (let caps = compute_capabilities e in
           case get_nvcc_cuda_version e cuda_dir of
             Inl err \<Rightarrow> Inl err
           | Inr nvcc_cuda_version \<Rightarrow>
               if caps = []
               then Inl (RuntimeError ''No GPUs found. Please specify SAGEATTENTION_CUDA_ARCH_LIST or build on a machine with GPUs.'')
               else (case validate e nvcc_cuda_version caps of
                       Some err \<Rightarrow> Inl err
                     | None \<Rightarrow> Inr (ext_modules e caps))))"

subsection \<open>The flags as the specification words them\<close>

text \<open>
  The specification describes the architecture number of a capability \<open>c\<close> as \<open>c\<close>
  with a \<open>+PTX\<close> suffix dropped and the dot removed. These definitions follow those
  words, to be compared with \<open>arch_num\<close> and \<open>gencode\<close> above, which follow the code.
\<close>

definition strip_ptx :: "string \<Rightarrow> string" where
  "strip_ptx c = (if endswith c ''+PTX'' then take (length c - 4) c else c)"

definition spec_arch_num :: "string \<Rightarrow> string" where
  "spec_arch_num c =
     (let n = remove_dots (strip_ptx c)
      in if n = ''90'' \<or> n = ''120'' then n @ ''a'' else n)"

definition spec_gencode :: "string \<Rightarrow> string list" where
  "spec_gencode c =
     [''-gencode'', ''arch=compute_'' @ spec_arch_num c @ '',code=sm_'' @ spec_arch_num c] @
     (if endswith c ''+PTX''
      then [''-gencode'', ''arch=compute_'' @ spec_arch_num c @ '',code=compute_'' @ spec_arch_num c]
      else [])"

subsection \<open>Environments to run the script on\<close>

text \<open>
  To run the script on an example, a library of versions is needed. This one is a
  small library of its own, not \<open>packaging\<close>: it knows the versions that are a release
  \<open>N(.N)*\<close> and raises InvalidVersion on every other string; two releases compare
  segment by segment, a missing segment counting as 0. On release strings it agrees
  with \<open>packaging\<close>, which drops the trailing zeros and compares tuples.
  \<open>packaging\<close> reads many more strings (a leading \<open>v\<close>, pre-, post- and
  dev-releases, epochs, local versions); the theorems below are stated for every
  library, and so for \<open>packaging\<close> with its own \<open>parse\<close> and order on all of these.
\<close>

type_synonym release = "nat list"

definition is_digit :: "char \<Rightarrow> bool" where
  "is_digit c = (let n = (of_char c :: nat) in 48 \<le> n \<and> n \<le> 57)"

definition nat_of_string :: "string \<Rightarrow> nat" where
  "nat_of_string s = foldl (\<lambda>acc c. 10 * acc + (of_char c - 48)) 0 s"

definition parse_release :: "string \<Rightarrow> error + release" where
  "parse_release s =
     (let pieces = py_split_on (CHR ''.'') s in
      if list_all (\<lambda>p. p \<noteq> [] \<and> list_all is_digit p) pieces
      then Inr (map nat_of_string pieces)
      else Inl InvalidVersion)"

definition Version_release :: "string \<Rightarrow> release" where
  "Version_release s = (case parse_release s of Inr v \<Rightarrow> v | Inl err \<Rightarrow> [])"

fun version_less :: "release \<Rightarrow> release \<Rightarrow> bool" where
  "version_less [] [] = False"
| "version_less [] (y # ys) = (0 < y \<or> version_less [] ys)"
| "version_less (x # xs) [] = False"
| "version_less (x # xs) (y # ys) = (x < y \<or> (x = y \<and> version_less xs ys))"

definition nvcc_prints :: "string \<Rightarrow> string list \<Rightarrow> error + string" where
  "nvcc_prints out cmd = Inr out"

text \<open>A machine with two GPUs, of capabilities 7.5 and 8.0, and CUDA 12.4.\<close>

definition env_detect :: "release env" where
  "env_detect =
     \<lparr>os_name = ''posix'', cpu_count = Some 8, glibcxx_use_cxx11_abi = True,
      CUDA_HOME = Some ''/usr/local/cuda'', arch_list = None,
      devices = [(7, 5), (8, 0)],
      check_output = nvcc_prints ''Cuda compilation tools, release 12.4, V12.4.131'',
      parse = parse_release, Version = Version_release, version_lt = version_less\<rparr>"

text \<open>The same machine with SAGEATTENTION_CUDA_ARCH_LIST set.\<close>

definition env_arch :: "string \<Rightarrow> release env" where
  "env_arch s = env_detect\<lparr>arch_list := Some s\<rparr>"

text \<open>The same with CUDA 12.3.\<close>

definition env_arch_12_3 :: "string \<Rightarrow> release env" where
  "env_arch_12_3 s =
     (env_arch s)\<lparr>check_output := nvcc_prints ''Cuda compilation tools, release 12.3, V12.3.107''\<rparr>"

text \<open>A machine without GPU whose nvcc prints no release.\<close>

definition env_no_release :: "release env" where
  "env_no_release =
     env_detect\<lparr>devices := [], check_output := nvcc_prints ''nvcc: NVIDIA (R) Cuda compiler driver''\<rparr>"

text \<open>A machine whose only GPU has capability 7.5.\<close>

definition env_old_gpu :: "release env" where
  "env_old_gpu = env_detect\<lparr>devices := [(7, 5)]\<rparr>"

section \<open>Properties\<close>

subsection \<open>Matching a target against the capabilities\<close>

lemma startswith_iff: "startswith s p \<longleftrightarrow> (\<exists>r. s = p @ r)"
  by (induction s p rule: startswith.induct) auto

lemma has_capability_Str:
  "has_capability caps (Str t) \<longleftrightarrow> (\<exists>cc\<in>set caps. \<exists>r. cc = t @ r)"
  by (simp add: has_capability_def list_ex_iff startswith_iff)

lemma has_capability_Tup:
  "has_capability caps (Tup ts) \<longleftrightarrow> (\<exists>cc\<in>set caps. \<exists>t\<in>set ts. \<exists>r. cc = t @ r)"
  by (simp add: has_capability_def list_ex_iff startswith_iff)

lemma has_capability_set:
  "set caps = set caps' \<Longrightarrow> has_capability caps tgt = has_capability caps' tgt"
  by (simp add: has_capability_def list_ex_iff)

lemma names_ext_modules:
  "map name (ext_modules e caps) =
     (if has_capability caps (Tup [''8.0'']) then [''sageattention._qattn_sm80''] else []) @
     (if has_capability caps (Tup [''8.9'', ''12.0'']) then [''sageattention._qattn_sm89''] else []) @
     (if has_capability caps (Tup [''9.0'']) then [''sageattention._qattn_sm90''] else []) @
     [''sageattention._fused'']"
  by (simp add: ext_modules_def append_fused_def append_sm90_def append_sm89_def append_sm80_def
      qattn_sm80_def qattn_sm89_def qattn_sm90_def fused_extension_def)

text \<open>
  Claim C1 says that \<open>has_capability(target)\<close> holds only when the target is itself a
  registered capability. The test is \<open>startswith\<close>: with the environment variable set
  to \<open>8.9+PTX\<close> the set is \<open>{"8.9+PTX"}\<close>, \<open>has_capability("8.9")\<close> holds, and \<open>"8.9"\<close>
  is not in the set.
\<close>

theorem has_capability_not_exact_counterexample:
  "has_capability (compute_capabilities (env_arch ''8.9+PTX'')) (Str ''8.9'')
   \<and> ''8.9'' \<notin> set (compute_capabilities (env_arch ''8.9+PTX''))"
  by code_simp

text \<open>
  Claim C1, as amended: the lookup is a prefix match. \<open>has_capability(target)\<close> holds
  exactly when some registered capability starts with the target (with one member of
  the target, when it is a tuple); a target that is itself registered matches; the
  answer depends on the set of capabilities alone, not on the order or on how often a
  capability was added; and each architecture-specific extension is among
  \<open>ext_modules\<close> exactly when \<open>has_capability\<close> holds of its targets, so a target that no
  registered capability starts with selects nothing.
\<close>

theorem has_capability_prefix_match:
  "(has_capability caps (Str t) \<longleftrightarrow> (\<exists>cc\<in>set caps. \<exists>r. cc = t @ r))
   \<and> (has_capability caps (Tup ts) \<longleftrightarrow> (\<exists>cc\<in>set caps. \<exists>t\<in>set ts. \<exists>r. cc = t @ r))
   \<and> (t \<in> set caps \<longrightarrow> has_capability caps (Str t))
   \<and> (set caps = set caps' \<longrightarrow> has_capability caps tgt = has_capability caps' tgt)
   \<and> (''sageattention._qattn_sm80'' \<in> set (map name (ext_modules e caps))
        \<longleftrightarrow> has_capability caps (Tup [''8.0'']))
   \<and> (''sageattention._qattn_sm89'' \<in> set (map name (ext_modules e caps))
        \<longleftrightarrow> has_capability caps (Tup [''8.9'', ''12.0'']))
   \<and> (''sageattention._qattn_sm90'' \<in> set (map name (ext_modules e caps))
        \<longleftrightarrow> has_capability caps (Tup [''9.0'']))"
proof -
  have a: "t \<in> set caps \<longrightarrow> has_capability caps (Str t)"
    unfolding has_capability_Str by (rule impI, rule bexI [of _ t], rule exI [of _ "[]"]) simp_all
  have b: "set caps = set caps' \<longrightarrow> has_capability caps tgt = has_capability caps' tgt"
    by (rule impI) (rule has_capability_set)
  have c: "''sageattention._qattn_sm80'' \<in> set (map name (ext_modules e caps))
        \<longleftrightarrow> has_capability caps (Tup [''8.0''])"
    by (simp add: names_ext_modules)
  have d: "''sageattention._qattn_sm89'' \<in> set (map name (ext_modules e caps))
        \<longleftrightarrow> has_capability caps (Tup [''8.9'', ''12.0''])"
    by (simp add: names_ext_modules)
  have f: "''sageattention._qattn_sm90'' \<in> set (map name (ext_modules e caps))
        \<longleftrightarrow> has_capability caps (Tup [''9.0''])"
    by (simp add: names_ext_modules)
  show ?thesis
    by (rule conjI [OF has_capability_Str conjI [OF has_capability_Tup
          conjI [OF a conjI [OF b conjI [OF c conjI [OF d f]]]]]])
qed

text \<open>
  The amended claim at the set \<open>{"8.0+PTX", "9.0"}\<close>: \<open>"9.0"\<close> is registered, so it
  matches; the same set listed in another order, with a repetition, answers alike.
\<close>

theorem has_capability_prefix_match_witness:
  "has_capability [''8.0+PTX'', ''9.0''] (Str ''9.0'')
   \<and> has_capability [''8.0+PTX'', ''9.0''] (Tup [''8.0'']) =
       has_capability [''9.0'', ''8.0+PTX'', ''9.0''] (Tup [''8.0''])"
proof -
  note t = has_capability_prefix_match [where caps = "[''8.0+PTX'', ''9.0'']"]
  have "has_capability [''8.0+PTX'', ''9.0''] (Str ''9.0'')"
    by (rule t [THEN conjunct2, THEN conjunct2, THEN conjunct1, rule_format]) simp
  moreover have "has_capability [''8.0+PTX'', ''9.0''] (Tup [''8.0'']) =
       has_capability [''9.0'', ''8.0+PTX'', ''9.0''] (Tup [''8.0''])"
    by (rule t [THEN conjunct2, THEN conjunct2, THEN conjunct2, THEN conjunct1, rule_format]) auto
  ultimately show ?thesis by (rule conjI)
qed

subsection \<open>Printing numbers, and the loop over the GPUs\<close>

lemma digit_mem: "d < 10 \<Longrightarrow> digit d \<in> set ''0123456789''"
  unfolding digit_def by (rule nth_mem) simp

lemma digit_not_dot: "d < 10 \<Longrightarrow> digit d \<noteq> CHR ''.''"
  using digit_mem [of d] by auto

lemma digit_inj: "d < 10 \<Longrightarrow> d' < 10 \<Longrightarrow> digit d = digit d' \<Longrightarrow> d = d'"
proof -
  assume a: "d < 10" "d' < 10" "digit d = digit d'"
  have "distinct ''0123456789''" by simp
  moreover have "d < length ''0123456789''" "d' < length ''0123456789''" using a by simp_all
  ultimately show ?thesis using a(3) unfolding digit_def by (simp only: nth_eq_iff_index_eq)
qed

lemma show_nat_not_Nil: "show_nat n \<noteq> []"
  by (subst show_nat.simps) simp

lemma show_nat_no_dot: "CHR ''.'' \<notin> set (show_nat n)"
proof (induction n rule: show_nat.induct)
  case (1 n)
  show ?case
  proof (cases "n < 10")
    case True
    then show ?thesis using digit_not_dot [of n] by (subst show_nat.simps) auto
  next
    case False
    moreover have "digit (n mod 10) \<noteq> CHR ''.''" by (rule digit_not_dot) simp
    ultimately show ?thesis using 1 by (subst show_nat.simps) auto
  qed
qed

lemma show_nat_inj: "show_nat n = show_nat m \<Longrightarrow> n = m"
proof (induction n arbitrary: m rule: show_nat.induct)
  case (1 n)
  show ?case
  proof (cases "n < 10")
    case True
    then have n: "show_nat n = [digit n]" by (subst show_nat.simps) simp
    show ?thesis
    proof (cases "m < 10")
      case True
      then have "show_nat m = [digit m]" by (subst show_nat.simps) simp
      with n "1.prems" have "digit n = digit m" by simp
      then show ?thesis using \<open>n < 10\<close> True by (rule digit_inj [rotated 2])
    next
      case False
      then have "show_nat m = show_nat (m div 10) @ [digit (m mod 10)]"
        by (subst show_nat.simps) simp
      with n "1.prems" have "show_nat (m div 10) = []" by simp
      then show ?thesis using show_nat_not_Nil by blast
    qed
  next
    case False
    then have n: "show_nat n = show_nat (n div 10) @ [digit (n mod 10)]"
      by (subst show_nat.simps) simp
    show ?thesis
    proof (cases "m < 10")
      case True
      then have "show_nat m = [digit m]" by (subst show_nat.simps) simp
      with n "1.prems" have "show_nat (n div 10) = []" by simp
      then show ?thesis using show_nat_not_Nil by blast
    next
      case F: False
      then have "show_nat m = show_nat (m div 10) @ [digit (m mod 10)]"
        by (subst show_nat.simps) simp
      with n "1.prems" have e: "show_nat (n div 10) = show_nat (m div 10)"
        and d: "digit (n mod 10) = digit (m mod 10)" by simp_all
      from "1.IH" [OF False e] have "n div 10 = m div 10" .
      moreover have "n mod 10 = m mod 10" using d by (rule digit_inj [rotated 2]) simp_all
      ultimately show ?thesis by (metis div_mult_mod_eq)
    qed
  qed
qed

lemma takeWhile_upto: "c \<notin> set xs \<Longrightarrow> takeWhile (\<lambda>x. x \<noteq> c) (xs @ c # ys) = xs"
  by (induction xs) auto

lemma split_at_sep:
  "c \<notin> set xs \<Longrightarrow> c \<notin> set xs' \<Longrightarrow> xs @ c # ys = xs' @ c # ys' \<Longrightarrow> xs = xs'"
  using takeWhile_upto [of c xs ys] takeWhile_upto [of c xs' ys'] by simp

lemma capability_string_major:
  "capability_string d = capability_string d' \<Longrightarrow> fst d = fst d'"
proof -
  assume "capability_string d = capability_string d'"
  then have "show_nat (fst d) @ CHR ''.'' # show_nat (snd d) = show_nat (fst d') @ CHR ''.'' # show_nat (snd d')"
    by (simp add: capability_string_def)
  then have "show_nat (fst d) = show_nat (fst d')"
    by (rule split_at_sep [OF show_nat_no_dot show_nat_no_dot])
  then show ?thesis by (rule show_nat_inj)
qed

lemma set_set_add: "set (set_add x xs) = insert x (set xs)"
  by (auto simp: set_add_def)

lemma set_add_all: "set (add_all caps xs) = set caps \<union> set xs"
  by (induction caps xs rule: add_all.induct) (auto simp: set_set_add)

lemma detect_gpus_caps:
  "snd (detect_gpus i ds (warns, caps)) =
     add_all caps (map capability_string (filter (\<lambda>d. \<not> fst d < 8) ds))"
  by (induction i ds "(warns, caps)" arbitrary: warns caps rule: detect_gpus.induct) auto

lemma detect_gpus_warns_keep:
  "w \<in> set warns \<Longrightarrow> w \<in> set (fst (detect_gpus i ds (warns, caps)))"
  by (induction i ds "(warns, caps)" arbitrary: warns caps rule: detect_gpus.induct) auto

lemma detect_gpus_warns:
  "k < length ds \<Longrightarrow> fst (ds ! k) < 8 \<Longrightarrow>
     skip_warning (i + k) (ds ! k) \<in> set (fst (detect_gpus i ds (warns, caps)))"
proof (induction i ds "(warns, caps)" arbitrary: warns caps k rule: detect_gpus.induct)
  case (1 i st)
  then show ?case by simp
next
  case (2 i d ds warns caps)
  show ?case
  proof (cases k)
    case 0
    then show ?thesis using "2.prems" by (simp add: detect_gpus_warns_keep)
  next
    case (Suc j)
    then show ?thesis using 2 by auto
  qed
qed

lemma detect_unset:
  "arch_list e = None \<or> arch_list e = Some [] \<Longrightarrow> detect e = detect_gpus 0 (devices e) ([], [])"
  by (auto simp: detect_def)

lemma compute_capabilities_unset:
  "arch_list e = None \<or> arch_list e = Some [] \<Longrightarrow>
     compute_capabilities e =
       add_all [] (map capability_string (filter (\<lambda>d. \<not> fst d < 8) (devices e)))"
  by (simp add: compute_capabilities_def detect_unset detect_gpus_caps)

lemma setup_py_cong:
  assumes "compute_capabilities e' = compute_capabilities e"
    and "CUDA_HOME e' = CUDA_HOME e" and "check_output e' = check_output e"
    and "os_name e' = os_name e" and "cpu_count e' = cpu_count e"
    and "glibcxx_use_cxx11_abi e' = glibcxx_use_cxx11_abi e"
    and "parse e' = parse e" and "Version e' = Version e" and "version_lt e' = version_lt e"
  shows "setup_py e' = setup_py e"
proof -
  have g: "get_nvcc_cuda_version e' = get_nvcc_cuda_version e"
    unfolding get_nvcc_cuda_version_def assms(3) assms(7) by (rule refl)
  have v: "validate e' = validate e"
    unfolding validate_def assms(8) assms(9) by (rule refl)
  have "CXX_FLAGS e' = CXX_FLAGS e" using assms by (simp add: CXX_FLAGS_def ABI_def)
  moreover have "NVCC_FLAGS_COMMON e' = NVCC_FLAGS_COMMON e"
    using assms by (simp add: NVCC_FLAGS_COMMON_def ABI_def)
  ultimately have x: "ext_modules e' = ext_modules e"
    by (simp add: fun_eq_iff ext_modules_def append_fused_def append_sm90_def append_sm89_def
        append_sm80_def qattn_sm80_def qattn_sm89_def qattn_sm90_def fused_extension_def)
  show ?thesis unfolding setup_py_def g v x assms(1) assms(2) by (rule refl)
qed

subsection \<open>The script up to the extensions\<close>

lemma validate_RuntimeError: "validate e v caps = Some err \<Longrightarrow> \<exists>msg. err = RuntimeError msg"
  by (auto simp: validate_def split: if_splits)

lemma validate_None_iff:
  "validate e v caps = None \<longleftrightarrow>
     \<not> (version_lt e v (Version e ''12.0'')
        \<or> (version_lt e v (Version e ''12.4'') \<and> has_capability caps (Str ''8.9''))
        \<or> (version_lt e v (Version e ''12.3'') \<and> has_capability caps (Str ''9.0''))
        \<or> (version_lt e v (Version e ''12.8'') \<and> has_capability caps (Str ''12.0'')))"
  by (simp add: validate_def)

lemma setup_py_reached:
  "CUDA_HOME e = Some d \<Longrightarrow> get_nvcc_cuda_version e d = Inr v \<Longrightarrow>
     setup_py e =
       (if compute_capabilities e = []
        then Inl (RuntimeError ''No GPUs found. Please specify SAGEATTENTION_CUDA_ARCH_LIST or build on a machine with GPUs.'')
        else (case validate e v (compute_capabilities e) of
                Some err \<Rightarrow> Inl err
              | None \<Rightarrow> Inr (ext_modules e (compute_capabilities e))))"
  by (simp add: setup_py_def Let_def)

lemma setup_py_Inr:
  "setup_py e = Inr exts \<Longrightarrow> exts = ext_modules e (compute_capabilities e)"
  by (auto simp: setup_py_def Let_def split: option.splits sum.splits if_splits)

subsection \<open>Splitting, suffixes and the loop over the capabilities\<close>

lemma endswith_iff: "endswith s p \<longleftrightarrow> (\<exists>b. s = b @ p)"
proof
  assume "endswith s p"
  then obtain r where "rev s = rev p @ r" by (auto simp: endswith_def startswith_iff)
  then have "rev (rev s) = rev (rev p @ r)" by (rule arg_cong)
  then show "\<exists>b. s = b @ p" by simp
next
  assume "\<exists>b. s = b @ p"
  then show "endswith s p" by (auto simp: endswith_def startswith_iff)
qed

lemma split_sep_first:
  "\<exists>rest. split_sep sep cur s = (cur @ takeWhile (\<lambda>x. x \<noteq> sep) s) # rest"
proof (induction s arbitrary: cur)
  case Nil
  show ?case by simp
next
  case (Cons a s)
  show ?case
  proof (cases "a = sep")
    case True
    then show ?thesis by simp
  next
    case False
    from Cons [of "cur @ [a]"] obtain rest
      where "split_sep sep (cur @ [a]) s = ((cur @ [a]) @ takeWhile (\<lambda>x. x \<noteq> sep) s) # rest" ..
    with False show ?thesis by simp
  qed
qed

lemma first_piece_takeWhile: "first_piece sep s = takeWhile (\<lambda>x. x \<noteq> sep) s"
proof -
  obtain rest where "split_sep sep [] s = ([] @ takeWhile (\<lambda>x. x \<noteq> sep) s) # rest"
    using split_sep_first [of sep "[]" s] ..
  then show ?thesis by (simp add: first_piece_def py_split_on_def)
qed

lemma nvcc_flags_loop_concat:
  "nvcc_flags_loop allowed caps flags =
     flags @ concat (map (\<lambda>c. if c \<in> set allowed then gencode c else []) caps)"
  by (induction caps arbitrary: flags) auto

lemma arch_num_code:
  "arch_num c =
     (let n = filter (\<lambda>x. x \<noteq> CHR ''.'') (takeWhile (\<lambda>x. x \<noteq> CHR ''+'') c)
      in if n = ''90'' \<or> n = ''120'' then n @ ''a'' else n)"
  by (simp add: arch_num_def remove_dots_def first_piece_takeWhile Let_def)

lemma strip_ptx_takeWhile:
  assumes "CHR ''+'' \<notin> set (strip_ptx c)"
  shows "takeWhile (\<lambda>x. x \<noteq> CHR ''+'') c = strip_ptx c"
proof (cases "endswith c ''+PTX''")
  case True
  then obtain b where b: "c = b @ ''+PTX''" by (auto simp: endswith_iff)
  then have s: "strip_ptx c = b" using True by (simp add: strip_ptx_def)
  with assms have "CHR ''+'' \<notin> set b" by simp
  then have "takeWhile (\<lambda>x. x \<noteq> CHR ''+'') (b @ CHR ''+'' # ''PTX'') = b"
    by (rule takeWhile_upto)
  then show ?thesis using b s by simp
next
  case False
  then have "strip_ptx c = c" by (simp add: strip_ptx_def)
  with assms show ?thesis by (auto simp: takeWhile_eq_all_conv)
qed

lemma arch_num_spec: "CHR ''+'' \<notin> set (strip_ptx c) \<Longrightarrow> arch_num c = spec_arch_num c"
  by (simp add: arch_num_code spec_arch_num_def remove_dots_def strip_ptx_takeWhile)

subsection \<open>The tokens of split\<close>

lemma split_ws_no_space:
  "\<forall>c\<in>set s. \<not> is_space c \<Longrightarrow> split_ws cur s = (if cur @ s = [] then [] else [cur @ s])"
  by (induction s arbitrary: cur) auto

lemma split_ws_at_space:
  "is_space c \<Longrightarrow> split_ws cur (a @ c # b) = split_ws cur a @ split_ws [] b"
  by (induction a arbitrary: cur) auto

lemma concat_split_ws:
  "concat (split_ws cur s) = cur @ filter (\<lambda>c. \<not> is_space c) s"
  by (induction cur s rule: split_ws.induct) auto

lemma split_ws_not_Nil: "[] \<notin> set (split_ws cur s)"
  by (induction cur s rule: split_ws.induct) simp_all

lemma split_ws_no_space_in:
  "\<forall>c\<in>set cur. \<not> is_space c \<Longrightarrow> t \<in> set (split_ws cur s) \<Longrightarrow> c \<in> set t \<Longrightarrow> \<not> is_space c"
proof (induction cur s rule: split_ws.induct)
  case (1 cur)
  then show ?case by (cases "cur = []") auto
next
  case (2 cur x cs)
  show ?case
  proof (cases "is_space x")
    case True
    show ?thesis
    proof (cases "cur = []")
      case c: True
      from "2.prems"(2) True c have "t \<in> set (split_ws [] cs)" by simp
      with "2.IH"(1) [OF True c] "2.prems"(3) show ?thesis by simp
    next
      case c: False
      from "2.prems"(2) True c have "t = cur \<or> t \<in> set (split_ws [] cs)" by simp
      then show ?thesis
      proof
        assume "t = cur"
        with "2.prems"(1,3) show ?thesis by simp
      next
        assume "t \<in> set (split_ws [] cs)"
        with "2.IH"(2) [OF True c] "2.prems"(3) show ?thesis by simp
      qed
    qed
  next
    case False
    from "2.prems"(2) False have m: "t \<in> set (split_ws (cur @ [x]) cs)" by simp
    have "\<forall>c\<in>set (cur @ [x]). \<not> is_space c" using False "2.prems"(1) by simp
    from "2.IH"(3) [OF False this m "2.prems"(3)] show ?thesis .
  qed
qed

subsection \<open>The states of ext_modules\<close>

lemma ext_modules_closed:
  "ext_modules e caps =
     (if has_capability caps (Tup [''8.0'']) then [qattn_sm80 e caps] else []) @
     (if has_capability caps (Tup [''8.9'', ''12.0'']) then [qattn_sm89 e caps] else []) @
     (if has_capability caps (Tup [''9.0'']) then [qattn_sm90 e caps] else []) @
     [fused_extension e caps]"
  by (simp add: ext_modules_def append_fused_def append_sm90_def append_sm89_def append_sm80_def)

lemma ext_modules_states_closed:
  "ext_modules_states e caps =
     [[],
      (if has_capability caps (Tup [''8.0'']) then [qattn_sm80 e caps] else []),
      (if has_capability caps (Tup [''8.0'']) then [qattn_sm80 e caps] else []) @
      (if has_capability caps (Tup [''8.9'', ''12.0'']) then [qattn_sm89 e caps] else []),
      (if has_capability caps (Tup [''8.0'']) then [qattn_sm80 e caps] else []) @
      (if has_capability caps (Tup [''8.9'', ''12.0'']) then [qattn_sm89 e caps] else []) @
      (if has_capability caps (Tup [''9.0'']) then [qattn_sm90 e caps] else []),
      ext_modules e caps]"
  by (simp add: ext_modules_states_def ext_modules_def Let_def append_fused_def append_sm90_def
      append_sm89_def append_sm80_def)

lemma ext_modules_states_steps:
  "ext_modules_states e caps =
     [[],
      append_sm80 e caps [],
      append_sm89 e caps (append_sm80 e caps []),
      append_sm90 e caps (append_sm89 e caps (append_sm80 e caps [])),
      append_fused e caps (append_sm90 e caps (append_sm89 e caps (append_sm80 e caps [])))]"
  by (simp add: ext_modules_states_def Let_def)

lemma append_steps:
  "\<exists>s. append_sm80 e caps exts = exts @ s \<and> length s \<le> 1"
  "\<exists>s. append_sm89 e caps exts = exts @ s \<and> length s \<le> 1"
  "\<exists>s. append_sm90 e caps exts = exts @ s \<and> length s \<le> 1"
  "\<exists>s. append_fused e caps exts = exts @ s \<and> length s \<le> 1"
  by (simp_all add: append_sm80_def append_sm89_def append_sm90_def append_fused_def)

subsection \<open>Validation before construction\<close>

text \<open>
  Claim C2: whatever the capabilities and the version that nvcc reports, the script
  ends in a RuntimeError, and so with no extension module, when the version is below
  12.0, or below 12.4 with 8.9 among the targets, or below 12.3 with 9.0, or below 12.8
  with 12.0. The version \<open>v\<close> is any version that \<open>packaging\<close> reads from the output
  of nvcc, a pre-release as well as a release, and "below" is the order of
  \<open>packaging\<close>. A capability is among the targets when \<open>has_capability\<close> holds of it,
  as the script tests it; by \<open>has_capability_Str\<close> this holds in particular when the
  capability is a member of the set. An empty set ends in a RuntimeError too, before
  the version is compared.
\<close>

theorem nvcc_version_validated:
  assumes home: "CUDA_HOME e = Some d"
    and version: "get_nvcc_cuda_version e d = Inr v"
    and low: "version_lt e v (Version e ''12.0'')
       \<or> (version_lt e v (Version e ''12.4'') \<and> has_capability (compute_capabilities e) (Str ''8.9''))
       \<or> (version_lt e v (Version e ''12.3'') \<and> has_capability (compute_capabilities e) (Str ''9.0''))
       \<or> (version_lt e v (Version e ''12.8'') \<and> has_capability (compute_capabilities e) (Str ''12.0''))"
  shows "\<exists>msg. setup_py e = Inl (RuntimeError msg)"
proof (cases "compute_capabilities e = []")
  case True
  then have "setup_py e = Inl (RuntimeError ''No GPUs found. Please specify SAGEATTENTION_CUDA_ARCH_LIST or build on a machine with GPUs.'')"
    by (simp add: setup_py_reached [OF home version])
  then show ?thesis by (rule exI)
next
  case False
  from low have "validate e v (compute_capabilities e) \<noteq> None"
    by (simp only: validate_None_iff not_not)
  then obtain err where err: "validate e v (compute_capabilities e) = Some err"
    by (cases "validate e v (compute_capabilities e)") simp_all
  from validate_RuntimeError [OF err] obtain msg where "err = RuntimeError msg" ..
  with err False have "setup_py e = Inl (RuntimeError msg)"
    by (simp add: setup_py_reached [OF home version])
  then show ?thesis by (rule exI)
qed

text \<open>
  With CUDA 12.3 and the variable set to \<open>8.9\<close>, the script stops at the second test.
\<close>

theorem nvcc_version_validated_witness:
  "\<exists>msg. setup_py (env_arch_12_3 ''8.9'') = Inl (RuntimeError msg)"
proof -
  have h: "CUDA_HOME (env_arch_12_3 ''8.9'') = Some ''/usr/local/cuda''"
    by (simp add: env_arch_12_3_def env_arch_def env_detect_def)
  have v: "get_nvcc_cuda_version (env_arch_12_3 ''8.9'') ''/usr/local/cuda'' = Inr [12, 3]"
    by code_simp
  have l: "version_lt (env_arch_12_3 ''8.9'') [12, 3] (Version (env_arch_12_3 ''8.9'') ''12.4'')
      \<and> has_capability (compute_capabilities (env_arch_12_3 ''8.9'')) (Str ''8.9'')"
    by code_simp
  show ?thesis by (rule nvcc_version_validated [OF h v]) (simp only: l simp_thms)
qed

subsection \<open>No capability at all\<close>

text \<open>
  Claim C3 says that an empty set of capabilities ends the script in a RuntimeError.
  The script reads the version of nvcc after the capabilities and before it tests the
  set: where nvcc prints no word \<open>release\<close>, \<open>output.index("release")\<close> raises
  ValueError first.
\<close>

theorem no_capabilities_not_RuntimeError_counterexample:
  "compute_capabilities env_no_release = [] \<and> setup_py env_no_release = Inl ValueError"
  by code_simp

text \<open>
  Claim C3, as amended: with an empty set of capabilities the script always ends in an
  exception, never in a list of extensions; and once CUDA_HOME is known and the
  version of nvcc has been read, that exception is the RuntimeError "No GPUs found".
\<close>

theorem no_capabilities_fail:
  assumes empty: "compute_capabilities e = []"
  shows "(\<exists>err. setup_py e = Inl err)
     \<and> (CUDA_HOME e = Some d \<and> get_nvcc_cuda_version e d = Inr v \<longrightarrow>
          setup_py e = Inl (RuntimeError ''No GPUs found. Please specify SAGEATTENTION_CUDA_ARCH_LIST or build on a machine with GPUs.''))"
proof -
  have a: "\<exists>err. setup_py e = Inl err"
    using empty by (auto simp: setup_py_def split: option.splits sum.splits)
  have b: "CUDA_HOME e = Some d \<and> get_nvcc_cuda_version e d = Inr v \<longrightarrow>
          setup_py e = Inl (RuntimeError ''No GPUs found. Please specify SAGEATTENTION_CUDA_ARCH_LIST or build on a machine with GPUs.'')"
    using empty by (auto simp: setup_py_reached)
  show ?thesis by (rule conjI [OF a b])
qed

text \<open>
  A machine whose only GPU has capability 7.5, with a working nvcc.
\<close>

theorem no_capabilities_fail_witness:
  "setup_py env_old_gpu = Inl (RuntimeError ''No GPUs found. Please specify SAGEATTENTION_CUDA_ARCH_LIST or build on a machine with GPUs.'')"
proof -
  have c: "compute_capabilities env_old_gpu = []" by code_simp
  have h: "CUDA_HOME env_old_gpu = Some ''/usr/local/cuda''"
    by (simp add: env_old_gpu_def env_detect_def)
  have v: "get_nvcc_cuda_version env_old_gpu ''/usr/local/cuda'' = Inr [12, 4]" by code_simp
  from no_capabilities_fail [OF c, THEN conjunct2, rule_format, OF conjI [OF h v]]
  show ?thesis .
qed

subsection \<open>Devices below capability 8\<close>

text \<open>
  Claim C4: when the environment variable is unset or empty, a device \<open>i\<close> whose major
  version is below 8 is skipped with the warning that names it, its capability is not
  in \<open>compute_capabilities\<close>, and the set and the whole result of the script are what
  they are on the machine without these devices: no extension and no flag is due to
  them.
\<close>

theorem low_capability_devices_skipped:
  assumes unset: "arch_list e = None \<or> arch_list e = Some []"
    and i: "i < length (devices e)"
    and low: "fst (devices e ! i) < 8"
  shows "skip_warning i (devices e ! i) \<in> set (fst (detect e))
     \<and> capability_string (devices e ! i) \<notin> set (compute_capabilities e)
     \<and> compute_capabilities e =
         compute_capabilities (e\<lparr>devices := filter (\<lambda>d. \<not> fst d < 8) (devices e)\<rparr>)
     \<and> setup_py e = setup_py (e\<lparr>devices := filter (\<lambda>d. \<not> fst d < 8) (devices e)\<rparr>)"
proof -
  let ?e' = "e\<lparr>devices := filter (\<lambda>d. \<not> fst d < 8) (devices e)\<rparr>"
  have w: "skip_warning i (devices e ! i) \<in> set (fst (detect e))"
    using detect_gpus_warns [OF i low, of 0 "[]" "[]"] by (simp add: detect_unset [OF unset])
  have n: "capability_string (devices e ! i) \<notin> set (compute_capabilities e)"
  proof
    assume "capability_string (devices e ! i) \<in> set (compute_capabilities e)"
    then obtain d where d: "d \<in> set (devices e)" "\<not> fst d < 8"
      and eq: "capability_string (devices e ! i) = capability_string d"
      by (auto simp: compute_capabilities_unset [OF unset] set_add_all)
    from eq have "fst (devices e ! i) = fst d" by (rule capability_string_major)
    with low d(2) show False by simp
  qed
  have unset': "arch_list ?e' = None \<or> arch_list ?e' = Some []" using unset by simp
  have c: "compute_capabilities e = compute_capabilities ?e'"
    by (simp add: compute_capabilities_unset [OF unset] compute_capabilities_unset [OF unset'])
  have s: "setup_py e = setup_py ?e'"
    by (rule setup_py_cong [symmetric]) (simp_all add: c [symmetric])
  show ?thesis by (rule conjI [OF w conjI [OF n conjI [OF c s]]])
qed

text \<open>
  The machine with a GPU of capability 7.5 and one of capability 8.0.
\<close>

theorem low_capability_devices_skipped_witness:
  "''skipping GPU 0 with compute capability 7.5'' \<in> set (fst (detect env_detect))
   \<and> ''7.5'' \<notin> set (compute_capabilities env_detect)
   \<and> compute_capabilities env_detect = [''8.0'']"
proof -
  have u: "arch_list env_detect = None \<or> arch_list env_detect = Some []"
    by (simp add: env_detect_def)
  have i: "0 < length (devices env_detect)" by (simp add: env_detect_def)
  have l: "fst (devices env_detect ! 0) < 8" by (simp add: env_detect_def)
  have d: "devices env_detect ! 0 = (7, 5)" by (simp add: env_detect_def)
  have s: "skip_warning 0 (7, 5) = ''skipping GPU 0 with compute capability 7.5''" by code_simp
  have c: "capability_string (7, 5) = ''7.5''" by code_simp
  have f: "compute_capabilities
             (env_detect\<lparr>devices := filter (\<lambda>d. \<not> fst d < 8) (devices env_detect)\<rparr>) = [''8.0'']"
    by code_simp
  from low_capability_devices_skipped [OF u i l] show ?thesis
    unfolding d s c f by simp
qed

subsection \<open>The extensions are appended, once each\<close>

text \<open>
  Claim C5: \<open>ext_modules\<close> is populated by one sequence of appends. The variable
  starts as the empty list and takes five values in all; each value is the one before
  it with at most one entry appended, so every value is a prefix of the last: an
  entry, once appended, stays where it is and as it is. The last value is
  \<open>ext_modules\<close>, which is the extensions whose targets match, in the order of the
  script, followed by the fused extension; it is the list that \<open>setup()\<close> receives. The
  names in it are distinct and among the four of the script. Each of the four places,
  on whatever list it finds, leaves that list as a prefix of the list it returns.
\<close>

theorem ext_modules_append_only:
  "ext_modules_states e caps ! 0 = []
   \<and> length (ext_modules_states e caps) = 5
   \<and> (\<forall>i. Suc i < length (ext_modules_states e caps) \<longrightarrow>
        (\<exists>xs. ext_modules_states e caps ! Suc i = ext_modules_states e caps ! i @ xs
              \<and> length xs \<le> 1))
   \<and> last (ext_modules_states e caps) = ext_modules e caps
   \<and> (\<forall>st\<in>set (ext_modules_states e caps). \<exists>xs. ext_modules e caps = st @ xs)
   \<and> ext_modules e caps =
       (if has_capability caps (Tup [''8.0'']) then [qattn_sm80 e caps] else []) @
       (if has_capability caps (Tup [''8.9'', ''12.0'']) then [qattn_sm89 e caps] else []) @
       (if has_capability caps (Tup [''9.0'']) then [qattn_sm90 e caps] else []) @
       [fused_extension e caps]
   \<and> distinct (map name (ext_modules e caps))
   \<and> set (map name (ext_modules e caps)) \<subseteq>
       {''sageattention._qattn_sm80'', ''sageattention._qattn_sm89'',
        ''sageattention._qattn_sm90'', ''sageattention._fused''}
   \<and> (\<exists>s. append_sm80 e caps exts = exts @ s \<and> length s \<le> 1)
   \<and> (\<exists>s. append_sm89 e caps exts = exts @ s \<and> length s \<le> 1)
   \<and> (\<exists>s. append_sm90 e caps exts = exts @ s \<and> length s \<le> 1)
   \<and> append_fused e caps exts = exts @ [fused_extension e caps]
   \<and> (setup_py e = Inr exts' \<longrightarrow>
        exts' = last (ext_modules_states e (compute_capabilities e)))"
proof -
  have c1: "ext_modules_states e caps ! 0 = []" by (simp add: ext_modules_states_steps)
  have c2: "length (ext_modules_states e caps) = 5" by (simp add: ext_modules_states_steps)
  have c3: "\<forall>i. Suc i < length (ext_modules_states e caps) \<longrightarrow>
        (\<exists>xs. ext_modules_states e caps ! Suc i = ext_modules_states e caps ! i @ xs
              \<and> length xs \<le> 1)"
  proof (intro allI impI)
    fix i assume "Suc i < length (ext_modules_states e caps)"
    then have "i = 0 \<or> i = 1 \<or> i = 2 \<or> i = 3" unfolding c2 by arith
    then show "\<exists>xs. ext_modules_states e caps ! Suc i = ext_modules_states e caps ! i @ xs
              \<and> length xs \<le> 1"
    proof (elim disjE)
      assume "i = 0"
      then show ?thesis using append_steps(1) [of e caps "[]"]
        by (simp add: ext_modules_states_steps)
    next
      assume "i = 1"
      then show ?thesis using append_steps(2) [of e caps "append_sm80 e caps []"]
        by (simp add: ext_modules_states_steps)
    next
      assume "i = 2"
      then show ?thesis
        using append_steps(3) [of e caps "append_sm89 e caps (append_sm80 e caps [])"]
        by (simp add: ext_modules_states_steps eval_nat_numeral)
    next
      assume "i = 3"
      then show ?thesis
        using append_steps(4)
          [of e caps "append_sm90 e caps (append_sm89 e caps (append_sm80 e caps []))"]
        by (simp add: ext_modules_states_steps eval_nat_numeral)
    qed
  qed
  have c4: "last (ext_modules_states e caps) = ext_modules e caps"
    by (simp add: ext_modules_states_closed)
  have c5: "\<forall>st\<in>set (ext_modules_states e caps). \<exists>xs. ext_modules e caps = st @ xs"
    unfolding ext_modules_states_closed by (simp add: ext_modules_closed)
  have c7: "distinct (map name (ext_modules e caps))" by (simp add: names_ext_modules)
  have c8: "set (map name (ext_modules e caps)) \<subseteq>
       {''sageattention._qattn_sm80'', ''sageattention._qattn_sm89'',
        ''sageattention._qattn_sm90'', ''sageattention._fused''}"
    by (auto simp: names_ext_modules)
  have c12: "append_fused e caps exts = exts @ [fused_extension e caps]"
    by (simp add: append_fused_def)
  have c13: "setup_py e = Inr exts' \<longrightarrow>
        exts' = last (ext_modules_states e (compute_capabilities e))"
    by (rule impI) (simp add: ext_modules_states_closed setup_py_Inr)
  show ?thesis
    by (rule conjI [OF c1 conjI [OF c2 conjI [OF c3 conjI [OF c4 conjI [OF c5
          conjI [OF ext_modules_closed conjI [OF c7 conjI [OF c8 conjI [OF append_steps(1)
          conjI [OF append_steps(2) conjI [OF append_steps(3) conjI [OF c12 c13]]]]]]]]]]]])
qed

text \<open>
  On the machine with the GPUs 7.5 and 8.0: \<open>setup()\<close> receives the last value, and
  the second value is the first with the extension for 8.0 appended.
\<close>

theorem ext_modules_append_only_witness:
  "setup_py env_detect = Inr (last (ext_modules_states env_detect (compute_capabilities env_detect)))
   \<and> ext_modules_states env_detect [''8.0''] ! Suc 0 = ext_modules_states env_detect [''8.0''] ! 0 @ [qattn_sm80 env_detect [''8.0'']]"
proof -
  note t = ext_modules_append_only [of env_detect "[''8.0'']" "[]"
      "ext_modules env_detect [''8.0'']"]
  have s: "setup_py env_detect = Inr (ext_modules env_detect [''8.0''])" by code_simp
  have "ext_modules env_detect [''8.0''] =
      last (ext_modules_states env_detect (compute_capabilities env_detect))"
    by (rule t [THEN conjunct2, THEN conjunct2, THEN conjunct2, THEN conjunct2, THEN conjunct2,
          THEN conjunct2, THEN conjunct2, THEN conjunct2, THEN conjunct2, THEN conjunct2,
          THEN conjunct2, THEN conjunct2, rule_format, OF s])
  with s have a: "setup_py env_detect =
      Inr (last (ext_modules_states env_detect (compute_capabilities env_detect)))" by simp
  have l: "Suc 0 < length (ext_modules_states env_detect [''8.0''])"
    unfolding t [THEN conjunct2, THEN conjunct1] by simp
  from t [THEN conjunct2, THEN conjunct2, THEN conjunct1, rule_format, OF l]
  obtain xs where x: "ext_modules_states env_detect [''8.0''] ! Suc 0 =
      ext_modules_states env_detect [''8.0''] ! 0 @ xs" by blast
  have h: "has_capability [''8.0''] (Tup [''8.0''])" by code_simp
  have b: "ext_modules_states env_detect [''8.0''] ! Suc 0 =
      ext_modules_states env_detect [''8.0''] ! 0 @ [qattn_sm80 env_detect [''8.0'']]"
    using x h by (simp add: ext_modules_states_closed)
  show ?thesis by (rule conjI [OF a b])
qed

subsection \<open>The variable overrides the detection\<close>

text \<open>
  Claim C8: when SAGEATTENTION_CUDA_ARCH_LIST is set to a string that is not empty,
  \<open>compute_capabilities\<close> is the set of its tokens, whatever they are; no warning is
  given; and the devices of the machine play no part. The tokens are those of
  \<open>str.split()\<close>: none is empty, none holds a whitespace character, together they are
  the string without its whitespace, a string without whitespace is its own single
  token, and the tokens of a string with a whitespace character in it are those before
  that character followed by those after it.
\<close>

theorem arch_list_override:
  assumes "arch_list e = Some s" and "s \<noteq> []"
  shows "set (compute_capabilities e) = set (py_split s)
     \<and> fst (detect e) = []
     \<and> detect (e\<lparr>devices := ds\<rparr>) = detect e
     \<and> (\<forall>t\<in>set (py_split s). t \<noteq> [] \<and> (\<forall>c\<in>set t. \<not> is_space c))
     \<and> concat (py_split s) = filter (\<lambda>c. \<not> is_space c) s
     \<and> ((\<forall>c\<in>set a. \<not> is_space c) \<and> a \<noteq> [] \<longrightarrow> py_split a = [a])
     \<and> (is_space c \<longrightarrow> py_split (a @ c # b) = py_split a @ py_split b)"
proof -
  have p: "set (compute_capabilities e) = set (py_split s) \<and> fst (detect e) = []
     \<and> detect (e\<lparr>devices := ds\<rparr>) = detect e"
    using assms by (simp add: compute_capabilities_def detect_def set_add_all)
  have t: "\<forall>t\<in>set (py_split s). t \<noteq> [] \<and> (\<forall>c\<in>set t. \<not> is_space c)"
  proof (intro ballI conjI)
    fix t assume "t \<in> set (py_split s)"
    then have m: "t \<in> set (split_ws [] s)" by (simp only: py_split_def)
    with split_ws_not_Nil [of "[]" s] show "t \<noteq> []" by metis
    fix c assume "c \<in> set t"
    with split_ws_no_space_in [of "[]" t s c] m show "\<not> is_space c" by simp
  qed
  have c: "concat (py_split s) = filter (\<lambda>c. \<not> is_space c) s"
    by (simp add: py_split_def concat_split_ws)
  have n: "(\<forall>c\<in>set a. \<not> is_space c) \<and> a \<noteq> [] \<longrightarrow> py_split a = [a]"
    by (simp add: py_split_def split_ws_no_space)
  have d: "is_space c \<longrightarrow> py_split (a @ c # b) = py_split a @ py_split b"
    by (simp add: py_split_def split_ws_at_space)
  show ?thesis
    by (rule conjI [OF p [THEN conjunct1] conjI [OF p [THEN conjunct2, THEN conjunct1]
          conjI [OF p [THEN conjunct2, THEN conjunct2] conjI [OF t conjI [OF c conjI [OF n d]]]]]])
qed

text \<open>
  With 7.5, 8.0 and 8.6 in the variable, separated by a space and by a no-break space,
  7.5 is a target and nothing is warned of.
\<close>

theorem arch_list_override_witness:
  "set (compute_capabilities (env_arch (''7.5 8.0'' @ [CHR 0xA0] @ ''8.6''))) = {''7.5'', ''8.0'', ''8.6''}
   \<and> fst (detect (env_arch (''7.5 8.0'' @ [CHR 0xA0] @ ''8.6''))) = []
   \<and> detect ((env_arch (''7.5 8.0'' @ [CHR 0xA0] @ ''8.6''))\<lparr>devices := []\<rparr>)
       = detect (env_arch (''7.5 8.0'' @ [CHR 0xA0] @ ''8.6''))"
proof -
  let ?s = "''7.5 8.0'' @ [CHR 0xA0] @ ''8.6''"
  have a: "arch_list (env_arch ?s) = Some ?s"
    by (simp add: env_arch_def env_detect_def)
  have n: "?s \<noteq> []" by simp
  have p: "set (py_split ?s) = {''7.5'', ''8.0'', ''8.6''}" by code_simp
  note t = arch_list_override [OF a n, of "[]"]
  show ?thesis
    by (rule conjI [OF t [THEN conjunct1, unfolded p] conjI [OF t [THEN conjunct2, THEN conjunct1]
          t [THEN conjunct2, THEN conjunct2, THEN conjunct1]]])
qed

subsection \<open>The flags of get_nvcc_flags\<close>

text \<open>
  Claim C9 says that the architecture number of a capability \<open>c\<close> is \<open>c\<close> with a
  \<open>+PTX\<close> suffix dropped and the dot removed. The code cuts \<open>c\<close> at its first \<open>+\<close>,
  whatever follows: for \<open>8.0+ptx\<close> it gives \<open>80\<close>, where the words of the claim give
  \<open>80+ptx\<close>.
\<close>

theorem gencode_cut_at_plus_counterexample:
  "get_nvcc_flags [] [''8.0+ptx''] [''8.0+ptx''] = [''-gencode'', ''arch=compute_80,code=sm_80'']
   \<and> spec_gencode ''8.0+ptx'' = [''-gencode'', ''arch=compute_80+ptx,code=sm_80+ptx'']"
  by code_simp

text \<open>
  Claim C9, as amended: \<open>get_nvcc_flags(allowed)\<close> is, in the order of iteration, the
  flags of each capability that is a member of \<open>allowed\<close>, nothing for the others, and
  then the common flags. The flags of \<open>c\<close> are \<open>-gencode arch=compute_N,code=sm_N\<close>,
  and \<open>-gencode arch=compute_N,code=compute_N\<close> as well exactly when \<open>c\<close> ends with
  \<open>+PTX\<close>, where \<open>N\<close> is \<open>c\<close> cut at its first \<open>+\<close>, without its dots, and with
  \<open>a\<close> appended exactly when that is \<open>90\<close> or \<open>120\<close>. Where \<open>c\<close> has no \<open>+\<close> but the
  one of a final \<open>+PTX\<close>, these are the flags the claim describes.
\<close>

theorem get_nvcc_flags_allowed:
  "get_nvcc_flags common caps allowed =
     concat (map (\<lambda>c. if c \<in> set allowed then gencode c else []) caps) @ common
   \<and> gencode c =
       [''-gencode'', ''arch=compute_'' @ arch_num c @ '',code=sm_'' @ arch_num c] @
       (if endswith c ''+PTX''
        then [''-gencode'', ''arch=compute_'' @ arch_num c @ '',code=compute_'' @ arch_num c]
        else [])
   \<and> arch_num c =
       (let n = filter (\<lambda>x. x \<noteq> CHR ''.'') (takeWhile (\<lambda>x. x \<noteq> CHR ''+'') c)
        in if n = ''90'' \<or> n = ''120'' then n @ ''a'' else n)
   \<and> (endswith c ''+PTX'' \<longleftrightarrow> (\<exists>b. c = b @ ''+PTX''))
   \<and> (CHR ''+'' \<notin> set (strip_ptx c) \<longrightarrow> gencode c = spec_gencode c)"
proof -
  have a: "get_nvcc_flags common caps allowed =
     concat (map (\<lambda>c. if c \<in> set allowed then gencode c else []) caps) @ common"
    by (simp add: get_nvcc_flags_def nvcc_flags_loop_concat)
  have b: "gencode c =
       [''-gencode'', ''arch=compute_'' @ arch_num c @ '',code=sm_'' @ arch_num c] @
       (if endswith c ''+PTX''
        then [''-gencode'', ''arch=compute_'' @ arch_num c @ '',code=compute_'' @ arch_num c]
        else [])"
    by (simp add: gencode_def Let_def)
  have d: "CHR ''+'' \<notin> set (strip_ptx c) \<longrightarrow> gencode c = spec_gencode c"
    by (simp add: b spec_gencode_def arch_num_spec)
  show ?thesis
    by (rule conjI [OF a conjI [OF b conjI [OF arch_num_code conjI [OF endswith_iff d]]]])
qed

text \<open>
  Three capabilities, two of them allowed, one with the suffix.
\<close>

theorem get_nvcc_flags_allowed_witness:
  "get_nvcc_flags [''-O3''] [''8.0+PTX'', ''8.6'', ''9.0''] [''8.0+PTX'', ''9.0''] =
     [''-gencode'', ''arch=compute_80,code=sm_80'',
      ''-gencode'', ''arch=compute_80,code=compute_80'',
      ''-gencode'', ''arch=compute_90a,code=sm_90a'', ''-O3'']
   \<and> gencode ''8.0+PTX'' = spec_gencode ''8.0+PTX''"
proof -
  note t = get_nvcc_flags_allowed [of "[''-O3'']" "[''8.0+PTX'', ''8.6'', ''9.0'']"
      "[''8.0+PTX'', ''9.0'']" "''8.0+PTX''"]
  have r: "concat (map (\<lambda>c. if c \<in> set [''8.0+PTX'', ''9.0''] then gencode c else [])
             [''8.0+PTX'', ''8.6'', ''9.0'']) @ [''-O3''] =
     [''-gencode'', ''arch=compute_80,code=sm_80'',
      ''-gencode'', ''arch=compute_80,code=compute_80'',
      ''-gencode'', ''arch=compute_90a,code=sm_90a'', ''-O3'']"
    by code_simp
  have p: "CHR ''+'' \<notin> set (strip_ptx ''8.0+PTX'')" by code_simp
  have "get_nvcc_flags [''-O3''] [''8.0+PTX'', ''8.6'', ''9.0''] [''8.0+PTX'', ''9.0''] =
     [''-gencode'', ''arch=compute_80,code=sm_80'',
      ''-gencode'', ''arch=compute_80,code=compute_80'',
      ''-gencode'', ''arch=compute_90a,code=sm_90a'', ''-O3'']"
    using t [THEN conjunct1] unfolding r .
  moreover have "gencode ''8.0+PTX'' = spec_gencode ''8.0+PTX''"
    by (rule t [THEN conjunct2, THEN conjunct2, THEN conjunct2, THEN conjunct2, rule_format, OF p])
  ultimately show ?thesis by (rule conjI)
qed

subsection \<open>The fused extension\<close>

text \<open>
  Claim C10: the extension \<open>sageattention._fused\<close> is in every list the script hands
  to \<open>setup()\<close>, and in \<open>ext_modules\<close> for every set of capabilities; and the script
  does hand over a list whenever CUDA_HOME is known, the version of nvcc is read, the
  set is not empty and the validation passes.
\<close>

theorem fused_always_registered:
  "(setup_py e = Inr exts \<longrightarrow> ''sageattention._fused'' \<in> set (map name exts))
   \<and> ''sageattention._fused'' \<in> set (map name (ext_modules e caps))
   \<and> (CUDA_HOME e = Some d \<and> get_nvcc_cuda_version e d = Inr v
        \<and> compute_capabilities e \<noteq> [] \<and> validate e v (compute_capabilities e) = None \<longrightarrow>
        setup_py e = Inr (ext_modules e (compute_capabilities e)))"
proof -
  have b: "''sageattention._fused'' \<in> set (map name (ext_modules e caps))" for caps
    by (simp add: names_ext_modules)
  have a: "setup_py e = Inr exts \<longrightarrow> ''sageattention._fused'' \<in> set (map name exts)"
    using b [of "compute_capabilities e"] by (auto dest: setup_py_Inr)
  have c: "CUDA_HOME e = Some d \<and> get_nvcc_cuda_version e d = Inr v
        \<and> compute_capabilities e \<noteq> [] \<and> validate e v (compute_capabilities e) = None \<longrightarrow>
        setup_py e = Inr (ext_modules e (compute_capabilities e))"
    by (auto simp: setup_py_reached)
  show ?thesis by (rule conjI [OF a conjI [OF b c]])
qed

text \<open>
  With \<open>7.5\<close> in the variable no architecture-specific extension is chosen, and the
  list is the fused extension alone.
\<close>

theorem fused_always_registered_witness:
  "setup_py (env_arch ''7.5'') = Inr (ext_modules (env_arch ''7.5'') [''7.5''])
   \<and> map name (ext_modules (env_arch ''7.5'') [''7.5'']) = [''sageattention._fused'']"
proof -
  have h: "CUDA_HOME (env_arch ''7.5'') = Some ''/usr/local/cuda''"
    by (simp add: env_arch_def env_detect_def)
  have v: "get_nvcc_cuda_version (env_arch ''7.5'') ''/usr/local/cuda'' = Inr [12, 4]" by code_simp
  have c: "compute_capabilities (env_arch ''7.5'') = [''7.5'']" by code_simp
  have n: "compute_capabilities (env_arch ''7.5'') \<noteq> []" unfolding c by simp
  have p: "validate (env_arch ''7.5'') [12, 4] (compute_capabilities (env_arch ''7.5'')) = None"
    by code_simp
  have "setup_py (env_arch ''7.5'') =
          Inr (ext_modules (env_arch ''7.5'') (compute_capabilities (env_arch ''7.5'')))"
    using fused_always_registered [THEN conjunct2, THEN conjunct2, rule_format,
        OF conjI [OF h conjI [OF v conjI [OF n p]]]] .
  moreover have "map name (ext_modules (env_arch ''7.5'') [''7.5'']) = [''sageattention._fused'']"
    unfolding names_ext_modules by code_simp
  ultimately show ?thesis unfolding c by (rule conjI)
qed

subsection \<open>Outside this development\<close>

text \<open>
  The CUDA kernels and the quantizer are not part of the build script: its list of
  sources names the files of the buffered and of the plain kernels
  (\<open>qattn_sm89\<close>), and nothing more is known of them here. What claims C6 and C7
  say of their floating-point results is not stated in this theory.
\<close>

end
